theory Spec2Isabelle
  imports Main "HOL-Library.Word" "HOL-Library.Multiset"
begin

unbundle bit_operations_syntax

section \<open>Data model\<close>

type_synonym u32 = "32 word"
type_synonym u64 = "64 word"

subsection \<open>RpcId (RpcService.h, lines 8-14)\<close>

text \<open>
  \<^verbatim>\<open>struct RpcId { uint64_t Klass; uint64_t Function; bool operator==(...) const; };\<close>
\<close>

record RpcId =
  Klass :: u64
  Function :: u64

text \<open>
  \<^verbatim>\<open>bool operator==(const RpcId& acRhs) const
  { return Klass == acRhs.Klass && Function == acRhs.Function; }\<close>
\<close>

definition RpcId_eq :: "RpcId \<Rightarrow> RpcId \<Rightarrow> bool" where
  "RpcId_eq a acRhs = (Klass a = Klass acRhs \<and> Function a = Function acRhs)"

text \<open>
  \<^verbatim>\<open>template <> struct std::hash<RpcId> {
    std::size_t operator()(const RpcId& s) const noexcept
    { return s.Klass ^ (s.Function << 1); } };\<close>
  The build is x64 (the generated headers are included from \<^verbatim>\<open>windows/x64\<close>), so
  \<^verbatim>\<open>std::size_t\<close> has 64 bits, as the operands have: the shift drops bit 63 of
  \<^verbatim>\<open>Function\<close> and the result is returned unchanged.
\<close>

definition RpcId_hash :: "RpcId \<Rightarrow> u64" where
  "RpcId_hash s = Klass s XOR push_bit 1 (Function s)"

subsection \<open>CachedRpcHandler (RpcService.h, lines 16-21)\<close>

text \<open>
  \<^verbatim>\<open>struct CachedRpcHandler { RpcId Id; RpcHandler* Handler; };\<close>
  \<^verbatim>\<open>RpcHandler\<close> is only forward-declared: the pointer is an opaque value of a type
  parameter \<open>'h\<close>. The field \<^verbatim>\<open>Id\<close> is written \<open>Id'\<close>, since \<open>Id\<close> is the
  identity relation of HOL.
\<close>

record 'h CachedRpcHandler =
  Id' :: RpcId
  Handler :: 'h

subsection \<open>PacketEvent (ProtocolPCH.h, lines 14-20)\<close>

text \<open>
  \<^verbatim>\<open>template<class T> struct PacketEvent : T { using Type = T; uint32_t ConnectionId{0}; };\<close>
  The envelope derives from the payload type: the base-class subobject is the field
  \<open>Base\<close>, and the only member the envelope adds is \<open>ConnectionId\<close>.
\<close>

record 't PacketEvent =
  Base :: 't
  ConnectionId :: u32

text \<open>
  An envelope built from a payload with no connection identifier given: the default
  member initializer \<^verbatim>\<open>{0}\<close> applies.
\<close>

definition PacketEvent_wrap :: "'t \<Rightarrow> 't PacketEvent" where
  "PacketEvent_wrap t = \<lparr>Base = t, ConnectionId = 0\<rparr>"

text \<open>An envelope for a payload that arrived on connection \<open>c\<close>.\<close>

definition PacketEvent_from :: "u32 \<Rightarrow> 't \<Rightarrow> 't PacketEvent" where
  "PacketEvent_from c t = (PacketEvent_wrap t)\<lparr>ConnectionId := c\<rparr>"

section \<open>The RPC service\<close>

subsection \<open>Messages\<close>

text \<open>
  Modelled from the spec: the generated message types \<^verbatim>\<open>server::RpcDefinitions\<close> and
  \<^verbatim>\<open>server::RpcCall\<close> (\<^verbatim>\<open>server.gen.h\<close> is not part of the sources). A Definitions
  message "enumerates the full current set of (Identity -> WireId) pairs"; a Call message
  carries "WireId or Identity (direction-dependent)" and the serialized arguments. The
  connection of a message is the \<open>ConnectionId\<close> of its envelope.
\<close>

record RpcDefinitions =
  definitions :: "(RpcId \<times> u32) list"

text \<open>
  Modelled from the spec: the identifier of a Call message, "WireId or Identity
  (direction-dependent)".
\<close>

datatype call_ident = ByWireId u32 | ByIdentity RpcId

text \<open>
  Modelled from the spec: the Call message \<^verbatim>\<open>server::RpcCall\<close>, with its identifier and
  its "serialized arguments", a sequence of bytes.
\<close>

record RpcCall =
  ident :: call_ident
  arguments :: "8 word list"

subsection \<open>State\<close>

text \<open>
  Modelled from the spec: the phases of the subsystem, which RpcService.h does not
  declare: "State machine (subsystem-level, per connection):
  Uninitialized -> AwaitingDefinitions -> Ready".
\<close>

datatype phase = Uninitialized | AwaitingDefinitions | Ready

text \<open>
  Modelled from the spec: what the dispatcher does to its surroundings, which the
  sources do not show: a logged drop, the decoding of an argument payload by a handler's
  thunk, the invocation of a handler, a Call message handed to the transport.
\<close>

datatype 'h effect =
  LoggedDrop call_ident
| Decoded 'h "8 word list"
| Invoked 'h
| Sent u32 "8 word list"

text \<open>
  Modelled from the spec: the fields \<open>phase\<close>, \<open>server_peer\<close> (the connection of "the
  expected authoritative peer") and \<open>effects\<close> (the effects so far, oldest first), which
  RpcService.h does not declare. The other two fields are the members
  \<^verbatim>\<open>Map<RpcId, uint32_t> m_serverRpcs; Vector<CachedRpcHandler> m_clientRpcs;\<close>
  (RpcService.h, lines 48-49): the hash map is kept as its list of (key, value) pairs,
  read with the key's \<^verbatim>\<open>operator==\<close>; the vector is a list in registration order.
\<close>

record 'h RpcService =
  m_serverRpcs :: "(RpcId \<times> u32) list"
  m_clientRpcs :: "'h CachedRpcHandler list"
  phase :: phase
  server_peer :: u32
  effects :: "'h effect list"

subsection \<open>Translation table\<close>

text \<open>
  Modelled from the spec: the operations of the translation table (the bodies of
  \<^verbatim>\<open>RpcService::GetRpcId\<close> and \<^verbatim>\<open>RpcService::HandleRpcDefinitions\<close> are in
  \<^verbatim>\<open>RpcService.cpp\<close>, which is not part of the sources). "\<open>lookup(identity) ->
  optional<WireId>\<close>. Pure read; returns nothing if the identity has no current
  server-assigned code."
\<close>

fun lookup :: "(RpcId \<times> u32) list \<Rightarrow> RpcId \<Rightarrow> u32 option" where
  "lookup [] i = None"
| "lookup ((k, w) # t) i = (if RpcId_eq k i then Some w else lookup t i)"

text \<open>
  Modelled from the spec: the storing of one entry of a Definitions message into the
  table (the loop is in \<^verbatim>\<open>RpcService.cpp\<close>), as \<^verbatim>\<open>map[key] = value\<close> does: the value of
  a key already present is overwritten, a new key is added.
\<close>

fun assign :: "(RpcId \<times> u32) list \<Rightarrow> RpcId \<Rightarrow> u32 \<Rightarrow> (RpcId \<times> u32) list" where
  "assign [] i w = [(i, w)]"
| "assign ((k, v) # t) i w = (if RpcId_eq k i then (k, w) # t else (k, v) # assign t i w)"

text \<open>
  Modelled from the spec: "\<open>replace_all(entries)\<close>. Atomically discards the previous
  mapping and installs the new one." The previous table is an argument that the result
  does not use; the entries are stored one by one into an empty table. The spec does not
  say which WireId is kept when the entries pair one Identity with several.
\<close>

definition replace_all :: "(RpcId \<times> u32) list \<Rightarrow> (RpcId \<times> u32) list \<Rightarrow> (RpcId \<times> u32) list" where
  "replace_all previous entries = fold (\<lambda>(i, w) t. assign t i w) entries []"

text \<open>
  Modelled from the spec: the translation of "the wire representation to an Identity",
  for the direction whose Call messages carry a WireId: the Identity that the table pairs
  with the WireId, if there is one.
\<close>

fun identity_of :: "(RpcId \<times> u32) list \<Rightarrow> u32 \<Rightarrow> RpcId option" where
  "identity_of [] w = None"
| "identity_of ((k, v) # t) w = (if v = w then Some k else identity_of t w)"

text \<open>
  Modelled from the spec: the body of
  \<^verbatim>\<open>std::optional<uint32_t> GetRpcId(uint64_t aKlass, uint64_t aFunction) const;\<close>
  (declared in RpcService.h, line 36; defined in \<^verbatim>\<open>RpcService.cpp\<close>): the \<open>lookup\<close> of
  the Identity made of the two arguments.
\<close>

definition GetRpcId :: "'h RpcService \<Rightarrow> u64 \<Rightarrow> u64 \<Rightarrow> u32 option" where
  "GetRpcId s aKlass aFunction = lookup (m_serverRpcs s) \<lparr>Klass = aKlass, Function = aFunction\<rparr>"

subsection \<open>Handler registry\<close>

text \<open>
  Modelled from the spec: "\<open>resolve(identity) -> optional<Handler>\<close> - read-only lookup
  used per inbound call", "a linear scan over a compact sequence" (the scan is in
  \<^verbatim>\<open>RpcService.cpp\<close>, which is not part of the sources).
\<close>

fun resolve :: "'h CachedRpcHandler list \<Rightarrow> RpcId \<Rightarrow> 'h option" where
  "resolve [] i = None"
| "resolve (e # es) i = (if RpcId_eq (Id' e) i then Some (Handler e) else resolve es i)"

text \<open>
  Modelled from the spec: the failure of the bring-up, "Duplicate registration at
  bring-up - a build/configuration defect; fatal, must halt initialization rather than
  silently overwrite", with the Identity that was registered again.
\<close>

datatype init_error = DuplicateIdentity RpcId

text \<open>
  Modelled from the spec: "\<open>register(identity, handler)\<close> - called only during subsystem
  bring-up, before any traffic is processed; duplicate identities are a configuration
  error and must fail fast (fatal, not recoverable)" (the registration is in
  \<^verbatim>\<open>RpcService.cpp\<close>, which is not part of the sources).
\<close>

definition register_handler ::
  "'h CachedRpcHandler list \<Rightarrow> RpcId \<Rightarrow> 'h \<Rightarrow> init_error + 'h CachedRpcHandler list" where
  "register_handler reg i h =
     (case resolve reg i of
        Some other \<Rightarrow> Inl (DuplicateIdentity i)
      | None \<Rightarrow> Inr (reg @ [\<lparr>Id' = i, Handler = h\<rparr>]))"

text \<open>
  Modelled from the spec: the population of the registry "from static registrations",
  in their order; the first failure ends it.
\<close>

fun populate ::
  "'h CachedRpcHandler list \<Rightarrow> (RpcId \<times> 'h) list \<Rightarrow> init_error + 'h CachedRpcHandler list" where
  "populate reg [] = Inr reg"
| "populate reg ((i, h) # rs) =
     (case register_handler reg i h of
        Inl e \<Rightarrow> Inl e
      | Inr reg' \<Rightarrow> populate reg' rs)"

text \<open>
  Modelled from the spec: the bring-up of the subsystem (\<^verbatim>\<open>OnInitialize\<close> and
  \<^verbatim>\<open>PrepareRpc\<close> are declared in RpcService.h, lines 33 and 40; their bodies are not
  part of the sources). It performs "the one-time Handler Registry population"; the
  translation table starts empty and the service waits for the Definitions message.
\<close>

definition initialize :: "u32 \<Rightarrow> (RpcId \<times> 'h) list \<Rightarrow> init_error + 'h RpcService" where
  "initialize peer registrations =
     (case populate [] registrations of
        Inl e \<Rightarrow> Inl e
      | Inr reg \<Rightarrow>
          Inr \<lparr>m_serverRpcs = [], m_clientRpcs = reg, phase = AwaitingDefinitions,
               server_peer = peer, effects = []\<rparr>)"

subsection \<open>Dispatcher\<close>

text \<open>
  Modelled from the spec: the body of
  \<^verbatim>\<open>void HandleRpcDefinitions(const PacketEvent<server::RpcDefinitions>& aMessage);\<close>
  (declared in RpcService.h, line 43; defined in \<^verbatim>\<open>RpcService.cpp\<close>). "On Definitions: validate
  the sender is the expected authoritative peer [...]; if valid, call \<open>replace_all\<close>";
  "Transition to Ready occurs only after the first successful \<open>replace_all\<close>", and a
  later Definitions message "re-triggers \<open>replace_all\<close> while remaining Ready".
\<close>

definition HandleRpcDefinitions ::
  "'h RpcService \<Rightarrow> RpcDefinitions PacketEvent \<Rightarrow> 'h RpcService" where
  "HandleRpcDefinitions s aMessage =
     (if ConnectionId aMessage = server_peer s
      then s\<lparr>m_serverRpcs := replace_all (m_serverRpcs s) (definitions (Base aMessage)),
             phase := Ready\<rparr>
      else s)"

text \<open>
  Modelled from the spec: the resolution of the identifier of a Call message: "resolve the
  Identity/WireId against the Handler Registry (translating the wire representation to an
  Identity first if the direction uses WireId)".
\<close>

fun resolve_call :: "'h RpcService \<Rightarrow> call_ident \<Rightarrow> 'h option" where
  "resolve_call s (ByIdentity i) = resolve (m_clientRpcs s) i"
| "resolve_call s (ByWireId w) =
     (case identity_of (m_serverRpcs s) w of
        None \<Rightarrow> None
      | Some i \<Rightarrow> resolve (m_clientRpcs s) i)"

text \<open>
  Modelled from the spec: the body of
  \<^verbatim>\<open>void HandleRpc(const PacketEvent<server::RpcCall>& aMessage);\<close> (declared in
  RpcService.h, line 42; defined in \<^verbatim>\<open>RpcService.cpp\<close>). "If resolution fails, the packet MUST be
  dropped and the event logged - never partially decoded [...]. If resolution succeeds,
  decode arguments using the handler's bound thunk and invoke synchronously".
\<close>

definition HandleRpc :: "'h RpcService \<Rightarrow> RpcCall PacketEvent \<Rightarrow> 'h RpcService" where
  "HandleRpc s aMessage =
     (case resolve_call s (ident (Base aMessage)) of
        None \<Rightarrow> s\<lparr>effects := effects s @ [LoggedDrop (ident (Base aMessage))]\<rparr>
      | Some h \<Rightarrow>
          s\<lparr>effects := effects s @ [Decoded h (arguments (Base aMessage)), Invoked h]\<rparr>)"

text \<open>
  Modelled from the spec: issuing a call. "The caller resolves its local Identity via
  \<open>lookup\<close>; if empty, the call is rejected locally (never sent) [...]. If present, the
  dispatcher constructs and hands off a Call Message using the resolved WireId." The
  result says whether the call was sent. The phase is not consulted: a call before
  \<open>Ready\<close> "must fail the same way as an unresolved lookup".
\<close>

definition issue_call :: "'h RpcService \<Rightarrow> RpcId \<Rightarrow> 8 word list \<Rightarrow> bool \<times> 'h RpcService" where
  "issue_call s i args =
     (case GetRpcId s (Klass i) (Function i) of
        None \<Rightarrow> (False, s)
      | Some w \<Rightarrow> (True, s\<lparr>effects := effects s @ [Sent w args]\<rparr>))"

text \<open>
  Modelled from the spec: what happens to a running service, one request after the
  other on the thread that owns dispatch: an inbound Definitions or Call message, or a
  call issued locally.
\<close>

datatype request =
  InDefinitions "RpcDefinitions PacketEvent"
| InCall "RpcCall PacketEvent"
| OutCall RpcId "8 word list"

text \<open>
  Modelled from the spec: one request is handled by the operation of its kind.
\<close>

fun step :: "'h RpcService \<Rightarrow> request \<Rightarrow> 'h RpcService" where
  "step s (InDefinitions m) = HandleRpcDefinitions s m"
| "step s (InCall m) = HandleRpc s m"
| "step s (OutCall i args) = snd (issue_call s i args)"

text \<open>Modelled from the spec: the requests of a session, processed in order.\<close>

fun run :: "'h RpcService \<Rightarrow> request list \<Rightarrow> 'h RpcService" where
  "run s [] = s"
| "run s (r # rs) = run (step s r) rs"

section \<open>The server list system\<close>

text \<open>
  ServerListSystem.cpp. \<^verbatim>\<open>m_nextAnnounce\<close> is a \<^verbatim>\<open>std::chrono::steady_clock::time_point\<close>:
  a signed 64-bit count of the clock's ticks since the clock's epoch, in nanoseconds
  (the representation and period of \<^verbatim>\<open>steady_clock\<close> in the standard libraries the
  server builds with). It is a \<open>64 word\<close> read by \<open>sint\<close>: time points are compared as
  signed values, and an addition that leaves the range wraps around, as the two's
  complement addition of the x64 build does.
\<close>

type_synonym time_point = "64 word"

text \<open>
  \<^verbatim>\<open>std::chrono::minutes(n)\<close> converted to the clock's duration: 60 * 10^9 ticks a minute.
\<close>

definition minutes :: "64 word \<Rightarrow> 64 word" where
  "minutes n = n * 60000000000"

text \<open>
  \<open>announce_log\<close> records, newest first, what the system did: a call of \<^verbatim>\<open>Announce()\<close>
  with the clock reading that triggered it, and a reset by the observer.
\<close>

datatype log_entry = Announced time_point | Reset

record ServerListSystem =
  m_nextAnnounce :: time_point
  announce_log :: "log_entry list"

text \<open>
  The constructor (lines 14-27): \<^verbatim>\<open>m_nextAnnounce{}\<close> is the clock's epoch.
\<close>

definition ServerListSystem_new :: ServerListSystem where
  "ServerListSystem_new = \<lparr>m_nextAnnounce = 0, announce_log = []\<rparr>"

text \<open>
  The observer of \<^verbatim>\<open>PlayerComponent\<close> for the events \<^verbatim>\<open>flecs::OnSet\<close> and
  \<^verbatim>\<open>flecs::OnRemove\<close> (lines 20-23): \<^verbatim>\<open>m_nextAnnounce = {};\<close>
\<close>

definition on_player_component :: "ServerListSystem \<Rightarrow> ServerListSystem" where
  "on_player_component s = s\<lparr>m_nextAnnounce := 0, announce_log := Reset # announce_log s\<rparr>"

text \<open>
  \<^verbatim>\<open>void ServerListSystem::Tick() noexcept {
    if (m_nextAnnounce < std::chrono::steady_clock::now()) {
      Announce();
      m_nextAnnounce = std::chrono::steady_clock::now() + std::chrono::minutes(1);
    } }\<close>
  The clock is read twice: \<open>now1\<close> is the reading of the comparison, \<open>now2\<close> the
  reading of the assignment. The comparison is the signed one (\<open><s\<close>); the sum is the
  64-bit sum. \<^verbatim>\<open>Announce()\<close> starts a detached thread that posts to the master server;
  the model records the call.
\<close>

definition Tick :: "ServerListSystem \<Rightarrow> time_point \<Rightarrow> time_point \<Rightarrow> ServerListSystem" where
  "Tick s now1 now2 =
     (if m_nextAnnounce s <s now1
      then s\<lparr>announce_log := Announced now1 # announce_log s,
             m_nextAnnounce := now2 + minutes 1\<rparr>
      else s)"

text \<open>
  What happens to the system: the update system runs \<^verbatim>\<open>Tick\<close> (line 18), with the two
  clock readings of that call, or the observer fires for a component that was set or
  removed.
\<close>

datatype world_event = TickEvent time_point time_point | OnSet | OnRemove

fun world_step :: "ServerListSystem \<Rightarrow> world_event \<Rightarrow> ServerListSystem" where
  "world_step s (TickEvent now1 now2) = Tick s now1 now2"
| "world_step s OnSet = on_player_component s"
| "world_step s OnRemove = on_player_component s"

fun world_run :: "ServerListSystem \<Rightarrow> world_event list \<Rightarrow> ServerListSystem" where
  "world_run s [] = s"
| "world_run s (e # es) = world_run (world_step s e) es"

text \<open>A steady clock does not go back: the second reading of a tick is not before the first.\<close>

fun steady :: "world_event \<Rightarrow> bool" where
  "steady (TickEvent now1 now2) = (now1 \<le>s now2)"
| "steady OnSet = True"
| "steady OnRemove = True"

text \<open>
  The clock reading of the assignment is more than one minute before the end of the
  64-bit range: the sum of \<^verbatim>\<open>Tick\<close> does not wrap around.
\<close>

fun in_range :: "world_event \<Rightarrow> bool" where
  "in_range (TickEvent now1 now2) = (sint now2 + 60000000000 < 2 ^ 63)"
| "in_range OnSet = True"
| "in_range OnRemove = True"

text \<open>
  Two announcements that follow each other in the log with no reset between them are
  more than one minute (60 * 10^9 ticks) apart; the log is newest first.
\<close>

fun spaced :: "log_entry list \<Rightarrow> bool" where
  "spaced (Announced t2 # Announced t1 # l) =
     (sint t1 + 60000000000 < sint t2 \<and> spaced (Announced t1 # l))"
| "spaced (e # l) = spaced l"
| "spaced [] = True"

section \<open>Identity: equality and hashing\<close>

subsection \<open>Auxiliary facts\<close>

lemma RpcId_eq_iff: "RpcId_eq a b \<longleftrightarrow> a = b"
  by (cases a, cases b) (simp add: RpcId_eq_def)

lemma push_bit_1_top_bit: "push_bit 1 (F + 2 ^ 63 :: u64) = push_bit 1 F"
proof -
  have "push_bit 1 (F + 2 ^ 63 :: u64) = push_bit 1 F + push_bit 1 (2 ^ 63)"
    by (simp only: push_bit_add)
  also have "push_bit 1 (2 ^ 63 :: u64) = 0"
    by simp
  finally show ?thesis by simp
qed

lemma xor_cancel_right: "(a XOR c = b XOR c) \<longleftrightarrow> a = b" for a b c :: u64
proof
  assume "a XOR c = b XOR c"
  then have "(a XOR c) XOR c = (b XOR c) XOR c" by simp
  then show "a = b" by (simp add: xor.assoc)
qed simp

lemma xor_eq_0_iff': "a XOR b = 0 \<longleftrightarrow> a = b" for a b :: u64
  using xor_cancel_right [of a b b] by simp

lemma hash_same_Function:
  "Function a = Function b \<Longrightarrow> RpcId_hash a = RpcId_hash b \<longleftrightarrow> Klass a = Klass b"
  by (simp add: RpcId_hash_def xor_cancel_right)

lemma hash_preimage:
  "{b. RpcId_hash b = h} = (\<lambda>f. \<lparr>Klass = h XOR push_bit 1 f, Function = f\<rparr>) ` UNIV"
proof (rule set_eqI)
  fix b :: RpcId
  show "b \<in> {b. RpcId_hash b = h} \<longleftrightarrow> b \<in> (\<lambda>f. \<lparr>Klass = h XOR push_bit 1 f, Function = f\<rparr>) ` UNIV"
  proof
    assume "b \<in> {b. RpcId_hash b = h}"
    then have h: "Klass b XOR push_bit 1 (Function b) = h" by (simp add: RpcId_hash_def)
    have "b = \<lparr>Klass = h XOR push_bit 1 (Function b), Function = Function b\<rparr>"
      unfolding h [symmetric] by (cases b) (simp add: xor.assoc)
    then show "b \<in> (\<lambda>f. \<lparr>Klass = h XOR push_bit 1 f, Function = f\<rparr>) ` UNIV" by blast
  next
    assume "b \<in> (\<lambda>f. \<lparr>Klass = h XOR push_bit 1 f, Function = f\<rparr>) ` UNIV"
    then obtain f where "b = \<lparr>Klass = h XOR push_bit 1 f, Function = f\<rparr>" by blast
    then show "b \<in> {b. RpcId_hash b = h}" by (simp add: RpcId_hash_def xor.assoc)
  qed
qed

lemma hash_preimage_card: "card {b. RpcId_hash b = h} = 2 ^ 64"
proof -
  have "inj (\<lambda>f. \<lparr>Klass = h XOR push_bit 1 f, Function = f\<rparr>)"
    by (rule injI) simp
  then have "card ((\<lambda>f. \<lparr>Klass = h XOR push_bit 1 f, Function = f\<rparr>) ` (UNIV :: u64 set)) = card (UNIV :: u64 set)"
    by (rule card_image)
  then show ?thesis by (simp add: hash_preimage card_word)
qed

lemma RpcId_card: "card (UNIV :: RpcId set) = 2 ^ 128"
proof -
  let ?mk = "\<lambda>(k, f). \<lparr>Klass = k, Function = f\<rparr>"
  have "inj ?mk" by (rule injI) auto
  then have "card (range ?mk) = card (UNIV :: (u64 \<times> u64) set)"
    by (rule card_image)
  moreover have "range ?mk = UNIV"
  proof (rule set_eqI)
    fix x :: RpcId
    have "x = ?mk (Klass x, Function x)" by simp
    then show "x \<in> range ?mk \<longleftrightarrow> x \<in> UNIV" by blast
  qed
  moreover have "card (UNIV :: (u64 \<times> u64) set) = 2 ^ 64 * 2 ^ 64"
  proof -
    have "card (UNIV :: (u64 \<times> u64) set) = card ((UNIV :: u64 set) \<times> (UNIV :: u64 set))"
      by simp
    also have "\<dots> = card (UNIV :: u64 set) * card (UNIV :: u64 set)"
      by (rule card_cartesian_product)
    finally show ?thesis by (simp add: card_word)
  qed
  ultimately show ?thesis by simp
qed

lemma hash_collide_iff:
  "RpcId_hash a = RpcId_hash b \<longleftrightarrow> Klass a XOR Klass b = push_bit 1 (Function a XOR Function b)"
proof -
  have "RpcId_hash a = RpcId_hash b \<longleftrightarrow> RpcId_hash a XOR RpcId_hash b = 0"
    by (simp only: xor_eq_0_iff')
  also have "RpcId_hash a XOR RpcId_hash b = (Klass a XOR Klass b) XOR push_bit 1 (Function a XOR Function b)"
    by (simp only: RpcId_hash_def push_bit_xor xor.assoc xor.left_commute)
  also have "\<dots> = 0 \<longleftrightarrow> Klass a XOR Klass b = push_bit 1 (Function a XOR Function b)"
    by (simp only: xor_eq_0_iff')
  finally show ?thesis .
qed


subsection \<open>Equality\<close>

text \<open>
  Claim C3. For all \<open>RpcId\<close> values \<open>a\<close> and \<open>b\<close>, \<open>a == b\<close> holds if and only if
  both fields are equal, which is the equality of the two values; for every pair that
  differs in either field the equality check is false.
\<close>

theorem RpcId_eq_both_fields:
  "(RpcId_eq a b \<longleftrightarrow> Klass a = Klass b \<and> Function a = Function b) \<and>
   (RpcId_eq a b \<longleftrightarrow> a = b) \<and>
   (Klass a \<noteq> Klass b \<or> Function a \<noteq> Function b \<longrightarrow> \<not> RpcId_eq a b)"
  by (cases a, cases b) (auto simp: RpcId_eq_def)

theorem RpcId_eq_both_fields_witness:
  "RpcId_eq \<lparr>Klass = 1, Function = 2\<rparr> \<lparr>Klass = 1, Function = 2\<rparr> \<and>
   Function \<lparr>Klass = 1, Function = 2\<rparr> \<noteq> Function \<lparr>Klass = 1, Function = 3\<rparr> \<and>
   \<not> RpcId_eq \<lparr>Klass = 1, Function = 2\<rparr> \<lparr>Klass = 1, Function = 3\<rparr> \<and>
   Klass \<lparr>Klass = 1, Function = 2\<rparr> \<noteq> Klass \<lparr>Klass = 4, Function = 2\<rparr> \<and>
   \<not> RpcId_eq \<lparr>Klass = 1, Function = 2\<rparr> \<lparr>Klass = 4, Function = 2\<rparr>"
  using RpcId_eq_both_fields [of "\<lparr>Klass = 1, Function = 2\<rparr>" "\<lparr>Klass = 1, Function = 2\<rparr>"]
    RpcId_eq_both_fields [of "\<lparr>Klass = 1, Function = 2\<rparr>" "\<lparr>Klass = 1, Function = 3\<rparr>"]
    RpcId_eq_both_fields [of "\<lparr>Klass = 1, Function = 2\<rparr>" "\<lparr>Klass = 4, Function = 2\<rparr>"]
  by simp

subsection \<open>Hashing\<close>

text \<open>
  Claim C4. The hash of an Identity is \<open>Klass xor (Function shifted left by one)\<close>, a
  function of the two fields alone, so Identities that \<^verbatim>\<open>operator==\<close> equates have one
  hash. Distinct Identities seldom collide: two Identities with the same \<open>Function\<close> and
  different \<open>Klass\<close> never do, two Identities collide exactly when the xor of their
  \<open>Klass\<close> fields is the shifted xor of their \<open>Function\<close> fields, and of the \<open>2^128\<close>
  Identities exactly \<open>2^64\<close> have the hash of a given one: an Identity drawn uniformly
  among the others collides with it with probability \<open>(2^64 - 1) / (2^128 - 1)\<close>.
\<close>

theorem RpcId_hash_of_both_fields:
  "RpcId_hash a = Klass a XOR push_bit 1 (Function a) \<and>
   (RpcId_eq a b \<longrightarrow> RpcId_hash a = RpcId_hash b) \<and>
   (Function a = Function b \<and> Klass a \<noteq> Klass b \<longrightarrow> RpcId_hash a \<noteq> RpcId_hash b) \<and>
   (RpcId_hash a = RpcId_hash b \<longleftrightarrow>
      Klass a XOR Klass b = push_bit 1 (Function a XOR Function b)) \<and>
   card {c. RpcId_hash c = RpcId_hash a} = 2 ^ 64 \<and>
   card (UNIV :: RpcId set) = 2 ^ 128"
proof -
  have "RpcId_hash a = Klass a XOR push_bit 1 (Function a)"
    by (simp only: RpcId_hash_def)
  moreover have "RpcId_eq a b \<longrightarrow> RpcId_hash a = RpcId_hash b"
    by (simp add: RpcId_eq_iff)
  moreover have "Function a = Function b \<and> Klass a \<noteq> Klass b \<longrightarrow> RpcId_hash a \<noteq> RpcId_hash b"
    by (simp add: hash_same_Function)
  ultimately show ?thesis
    using hash_collide_iff [of a b] hash_preimage_card [of "RpcId_hash a"] RpcId_card
    by blast
qed

theorem RpcId_hash_of_both_fields_witness:
  "RpcId_hash \<lparr>Klass = 5, Function = 3\<rparr> = 3 \<and>
   RpcId_eq \<lparr>Klass = 5, Function = 3\<rparr> \<lparr>Klass = 5, Function = 3\<rparr> \<and>
   Function \<lparr>Klass = 5, Function = 3\<rparr> = Function \<lparr>Klass = 4, Function = 3\<rparr> \<and>
   Klass \<lparr>Klass = 5, Function = 3\<rparr> \<noteq> Klass \<lparr>Klass = 4, Function = 3\<rparr> \<and>
   RpcId_hash \<lparr>Klass = 5, Function = 3\<rparr> \<noteq> RpcId_hash \<lparr>Klass = 4, Function = 3\<rparr>"
  using RpcId_hash_of_both_fields [of "\<lparr>Klass = 5, Function = 3\<rparr>" "\<lparr>Klass = 5, Function = 3\<rparr>"]
    RpcId_hash_of_both_fields [of "\<lparr>Klass = 5, Function = 3\<rparr>" "\<lparr>Klass = 4, Function = 3\<rparr>"]
  by (simp add: RpcId_eq_def RpcId_hash_def)

text \<open>
  Claim C8. For every \<open>K\<close> and \<open>F\<close>, the two distinct Identities \<open>{K, F}\<close> and
  \<open>{K, F + 2^63}\<close> have equal hashes: the shift by one at 64 bits drops the most
  significant bit of \<open>Function\<close>.
\<close>

theorem RpcId_hash_top_bit_collision:
  "RpcId_hash \<lparr>Klass = K, Function = F\<rparr> = RpcId_hash \<lparr>Klass = K, Function = F + 2 ^ 63\<rparr> \<and>
   \<lparr>Klass = K, Function = F\<rparr> \<noteq> \<lparr>Klass = K, Function = F + 2 ^ 63\<rparr> \<and>
   \<not> RpcId_eq \<lparr>Klass = K, Function = F\<rparr> \<lparr>Klass = K, Function = F + 2 ^ 63\<rparr>"
proof -
  have "RpcId_hash \<lparr>Klass = K, Function = F\<rparr> = RpcId_hash \<lparr>Klass = K, Function = F + 2 ^ 63\<rparr>"
    by (simp only: RpcId_hash_def RpcId.select_convs push_bit_1_top_bit)
  moreover have "F \<noteq> F + 2 ^ 63"
    by simp
  ultimately show ?thesis
    by (simp add: RpcId_eq_def)
qed

section \<open>Packet envelope\<close>

text \<open>
  Claim C9. Wrapping a payload into the envelope leaves the payload unchanged and adds
  only \<open>ConnectionId\<close>, which is 0 when not set: such an envelope is equal to the
  envelope of the same payload from connection 0.
\<close>

theorem PacketEvent_wrap_frame:
  "Base (PacketEvent_wrap t) = t \<and>
   ConnectionId (PacketEvent_wrap t) = 0 \<and>
   PacketEvent_wrap t = PacketEvent_from 0 t \<and>
   Base (PacketEvent_from c t) = t \<and>
   ConnectionId (PacketEvent_from c t) = c \<and>
   (PacketEvent_wrap t = \<lparr>Base = t', ConnectionId = c'\<rparr> \<longleftrightarrow> t' = t \<and> c' = 0)"
  by (auto simp: PacketEvent_wrap_def PacketEvent_from_def)

section \<open>Translation table\<close>

lemma lookup_map_of: "lookup t = map_of t"
proof
  fix i show "lookup t i = map_of t i"
    by (induction t) (auto simp: RpcId_eq_iff)
qed

lemma lookup_assign: "lookup (assign t i w) j = (if i = j then Some w else lookup t j)"
  by (induction t) (auto simp: RpcId_eq_iff)

lemma lookup_fold_assign:
  "lookup (fold (\<lambda>(i, w) t. assign t i w) entries t) j =
     (case map_of (rev entries) j of Some w \<Rightarrow> Some w | None \<Rightarrow> lookup t j)"
proof (induction entries arbitrary: t)
  case Nil
  show ?case by simp
next
  case (Cons e entries)
  obtain i w where e: "e = (i, w)" by (cases e)
  show ?case
    by (simp add: e Cons.IH lookup_assign map_add_def split: option.splits)
qed

lemma lookup_replace_all: "lookup (replace_all previous entries) j = map_of (rev entries) j"
  by (simp add: replace_all_def lookup_fold_assign split: option.splits)

lemma lookup_replace_all_None:
  "lookup (replace_all previous entries) j = None \<longleftrightarrow> j \<notin> fst ` set entries"
  by (simp add: lookup_replace_all map_of_eq_None_iff)

lemma lookup_replace_all_Some:
  "lookup (replace_all previous entries) j = Some w \<Longrightarrow> (j, w) \<in> set entries"
  by (auto simp: lookup_replace_all dest: map_of_SomeD)

lemma lookup_replace_all_unique:
  assumes "(j, w) \<in> set entries" and "\<forall>w'. (j, w') \<in> set entries \<longrightarrow> w' = w"
  shows "lookup (replace_all previous entries) j = Some w"
proof (cases "lookup (replace_all previous entries) j")
  case None
  with assms(1) show ?thesis by (force simp: lookup_replace_all_None)
next
  case (Some w')
  then have "(j, w') \<in> set entries" by (rule lookup_replace_all_Some)
  with assms(2) Some show ?thesis by simp
qed

lemma map_fst_assign:
  "map fst (assign t i w) = (if i \<in> set (map fst t) then map fst t else map fst t @ [i])"
  by (induction t) (force simp: RpcId_eq_iff)+

lemma distinct_assign: "distinct (map fst t) \<Longrightarrow> distinct (map fst (assign t i w))"
  by (simp add: map_fst_assign)

lemma distinct_replace_all: "distinct (map fst (replace_all previous entries))"
proof -
  have "distinct (map fst t) \<Longrightarrow> distinct (map fst (fold (\<lambda>(i, w) t. assign t i w) entries t))" for t
    by (induction entries arbitrary: t) (auto simp: distinct_assign)
  then show ?thesis by (simp add: replace_all_def)
qed

text \<open>
  Claim C1. After \<open>replace_all\<close>, \<open>lookup\<close> is absent exactly for the Identities that
  are not in the entries, returns only a WireId that the entries pair with the Identity,
  and returns the WireId paired with an Identity when the entries pair it with only that
  one; the previous table plays no role, so a second \<open>replace_all\<close> supersedes the first
  and an Identity that only the first entries had is absent. A Definitions message from
  the server installs its entries in this way.
\<close>

theorem replace_all_supersedes:
  "(lookup (replace_all previous entries) i = None \<longleftrightarrow> i \<notin> fst ` set entries) \<and>
   (\<forall>w. lookup (replace_all previous entries) i = Some w \<longrightarrow> (i, w) \<in> set entries) \<and>
   (\<forall>w. (i, w) \<in> set entries \<and> (\<forall>w'. (i, w') \<in> set entries \<longrightarrow> w' = w) \<longrightarrow>
        lookup (replace_all previous entries) i = Some w) \<and>
   replace_all (replace_all previous first) second = replace_all [] second \<and>
   (i \<notin> fst ` set second \<longrightarrow> lookup (replace_all (replace_all previous first) second) i = None) \<and>
   (ConnectionId aMessage = server_peer s \<longrightarrow>
      GetRpcId (HandleRpcDefinitions s aMessage) k f =
        lookup (replace_all [] (definitions (Base aMessage))) \<lparr>Klass = k, Function = f\<rparr>)"
proof (intro conjI allI impI)
  show "lookup (replace_all previous entries) i = None \<longleftrightarrow> i \<notin> fst ` set entries"
    by (rule lookup_replace_all_None)
  show "(i, w) \<in> set entries" if "lookup (replace_all previous entries) i = Some w" for w
    using that by (rule lookup_replace_all_Some)
  show "lookup (replace_all previous entries) i = Some w"
    if "(i, w) \<in> set entries \<and> (\<forall>w'. (i, w') \<in> set entries \<longrightarrow> w' = w)" for w
    using that by (simp add: lookup_replace_all_unique)
  show "replace_all (replace_all previous first) second = replace_all [] second"
    by (simp add: replace_all_def)
  show "lookup (replace_all (replace_all previous first) second) i = None"
    if "i \<notin> fst ` set second"
    using that by (simp add: lookup_replace_all_None)
  show "GetRpcId (HandleRpcDefinitions s aMessage) k f =
        lookup (replace_all [] (definitions (Base aMessage))) \<lparr>Klass = k, Function = f\<rparr>"
    if "ConnectionId aMessage = server_peer s"
    using that by (simp add: GetRpcId_def HandleRpcDefinitions_def replace_all_def)
qed

theorem replace_all_supersedes_witness:
  "(\<lparr>Klass = 1, Function = 2\<rparr>, 7) \<in> set [(\<lparr>Klass = 1, Function = 2\<rparr>, 7 :: u32), (\<lparr>Klass = 3, Function = 4\<rparr>, 9)] \<and>
   lookup (replace_all [] [(\<lparr>Klass = 1, Function = 2\<rparr>, 7), (\<lparr>Klass = 3, Function = 4\<rparr>, 9)])
     \<lparr>Klass = 1, Function = 2\<rparr> = Some 7 \<and>
   \<lparr>Klass = 5, Function = 6\<rparr> \<notin> fst ` set [(\<lparr>Klass = 1, Function = 2\<rparr>, 7 :: u32), (\<lparr>Klass = 3, Function = 4\<rparr>, 9)] \<and>
   lookup (replace_all [] [(\<lparr>Klass = 1, Function = 2\<rparr>, 7), (\<lparr>Klass = 3, Function = 4\<rparr>, 9)])
     \<lparr>Klass = 5, Function = 6\<rparr> = None \<and>
   \<lparr>Klass = 3, Function = 4\<rparr> \<notin> fst ` set [(\<lparr>Klass = 1, Function = 2\<rparr>, 42 :: u32)] \<and>
   lookup (replace_all
       (replace_all [] [(\<lparr>Klass = 1, Function = 2\<rparr>, 7), (\<lparr>Klass = 3, Function = 4\<rparr>, 9)])
       [(\<lparr>Klass = 1, Function = 2\<rparr>, 42)]) \<lparr>Klass = 3, Function = 4\<rparr> = None \<and>
   lookup (replace_all
       (replace_all [] [(\<lparr>Klass = 1, Function = 2\<rparr>, 7), (\<lparr>Klass = 3, Function = 4\<rparr>, 9)])
       [(\<lparr>Klass = 1, Function = 2\<rparr>, 42)]) \<lparr>Klass = 1, Function = 2\<rparr> = Some 42 \<and>
   ConnectionId \<lparr>Base = \<lparr>definitions = [(\<lparr>Klass = 1, Function = 2\<rparr>, 42)]\<rparr>, ConnectionId = 0\<rparr> =
     server_peer \<lparr>m_serverRpcs = [(\<lparr>Klass = 1, Function = 2\<rparr>, 7), (\<lparr>Klass = 3, Function = 4\<rparr>, 9)],
       m_clientRpcs = [] :: string CachedRpcHandler list, phase = Ready, server_peer = 0,
       effects = []\<rparr> \<and>
   GetRpcId (HandleRpcDefinitions
       \<lparr>m_serverRpcs = [(\<lparr>Klass = 1, Function = 2\<rparr>, 7), (\<lparr>Klass = 3, Function = 4\<rparr>, 9)],
        m_clientRpcs = [] :: string CachedRpcHandler list, phase = Ready, server_peer = 0,
        effects = []\<rparr>
       \<lparr>Base = \<lparr>definitions = [(\<lparr>Klass = 1, Function = 2\<rparr>, 42)]\<rparr>, ConnectionId = 0\<rparr>) 3 4 = None"
  using replace_all_supersedes [where previous = "[]" and entries = "[(\<lparr>Klass = 1, Function = 2\<rparr>, 7), (\<lparr>Klass = 3, Function = 4\<rparr>, 9)]"
      and i = "\<lparr>Klass = 1, Function = 2\<rparr>" and first = "[(\<lparr>Klass = 1, Function = 2\<rparr>, 7), (\<lparr>Klass = 3, Function = 4\<rparr>, 9)]"
      and second = "[(\<lparr>Klass = 1, Function = 2\<rparr>, 42)]" and k = 3 and f = 4
      and s = "\<lparr>m_serverRpcs = [(\<lparr>Klass = 1, Function = 2\<rparr>, 7), (\<lparr>Klass = 3, Function = 4\<rparr>, 9)],
        m_clientRpcs = [] :: string CachedRpcHandler list, phase = Ready, server_peer = 0,
        effects = []\<rparr>"
      and aMessage = "\<lparr>Base = \<lparr>definitions = [(\<lparr>Klass = 1, Function = 2\<rparr>, 42)]\<rparr>, ConnectionId = 0\<rparr>"]
    replace_all_supersedes [where previous = "[]" and entries = "[(\<lparr>Klass = 1, Function = 2\<rparr>, 7), (\<lparr>Klass = 3, Function = 4\<rparr>, 9)]"
      and i = "\<lparr>Klass = 5, Function = 6\<rparr>" and first = "[(\<lparr>Klass = 1, Function = 2\<rparr>, 7), (\<lparr>Klass = 3, Function = 4\<rparr>, 9)]"
      and second = "[(\<lparr>Klass = 1, Function = 2\<rparr>, 42)]" and k = 3 and f = 4
      and s = "\<lparr>m_serverRpcs = [(\<lparr>Klass = 1, Function = 2\<rparr>, 7), (\<lparr>Klass = 3, Function = 4\<rparr>, 9)],
        m_clientRpcs = [] :: string CachedRpcHandler list, phase = Ready, server_peer = 0,
        effects = []\<rparr>"
      and aMessage = "\<lparr>Base = \<lparr>definitions = [(\<lparr>Klass = 1, Function = 2\<rparr>, 42)]\<rparr>, ConnectionId = 0\<rparr>"]
    replace_all_supersedes [where previous = "[]" and entries = "[(\<lparr>Klass = 1, Function = 2\<rparr>, 7), (\<lparr>Klass = 3, Function = 4\<rparr>, 9)]"
      and i = "\<lparr>Klass = 3, Function = 4\<rparr>" and first = "[(\<lparr>Klass = 1, Function = 2\<rparr>, 7), (\<lparr>Klass = 3, Function = 4\<rparr>, 9)]"
      and second = "[(\<lparr>Klass = 1, Function = 2\<rparr>, 42)]" and k = 3 and f = 4
      and s = "\<lparr>m_serverRpcs = [(\<lparr>Klass = 1, Function = 2\<rparr>, 7), (\<lparr>Klass = 3, Function = 4\<rparr>, 9)],
        m_clientRpcs = [] :: string CachedRpcHandler list, phase = Ready, server_peer = 0,
        effects = []\<rparr>"
      and aMessage = "\<lparr>Base = \<lparr>definitions = [(\<lparr>Klass = 1, Function = 2\<rparr>, 42)]\<rparr>, ConnectionId = 0\<rparr>"]
  by (simp add: replace_all_def RpcId_eq_def)

section \<open>Handler registry\<close>

lemma resolve_None_iff: "resolve reg i = None \<longleftrightarrow> i \<notin> Id' ` set reg"
  by (induction reg) (auto simp: RpcId_eq_iff)

lemma resolve_eq: "RpcId_eq i j \<Longrightarrow> resolve reg i = resolve reg j"
  by (simp add: RpcId_eq_iff)

lemma resolve_map_of:
  "resolve (map (\<lambda>(i, h). \<lparr>Id' = i, Handler = h\<rparr>) rs) i = map_of rs i"
  by (induction rs) (auto simp: RpcId_eq_iff)

lemma populate_distinct:
  "distinct (map Id' reg @ map fst rs) \<Longrightarrow>
   populate reg rs = Inr (reg @ map (\<lambda>(i, h). \<lparr>Id' = i, Handler = h\<rparr>) rs)"
proof (induction rs arbitrary: reg)
  case Nil
  show ?case by simp
next
  case (Cons r rs)
  obtain i h where r: "r = (i, h)" by (cases r)
  from Cons.prems have "i \<notin> Id' ` set reg" by (auto simp: r)
  then have none: "resolve reg i = None" by (simp add: resolve_None_iff)
  from Cons.prems have "distinct (map Id' (reg @ [\<lparr>Id' = i, Handler = h\<rparr>]) @ map fst rs)"
    by (auto simp: r)
  then have "populate (reg @ [\<lparr>Id' = i, Handler = h\<rparr>]) rs =
      Inr ((reg @ [\<lparr>Id' = i, Handler = h\<rparr>]) @ map (\<lambda>(i, h). \<lparr>Id' = i, Handler = h\<rparr>) rs)"
    by (rule Cons.IH)
  then show ?case by (simp add: r register_handler_def none)
qed

lemma populate_duplicate:
  "\<not> distinct (map Id' reg @ map fst rs) \<Longrightarrow> distinct (map Id' reg) \<Longrightarrow>
   \<exists>i. populate reg rs = Inl (DuplicateIdentity i) \<and> 2 \<le> count_list (map Id' reg @ map fst rs) i"
proof (induction rs arbitrary: reg)
  case Nil
  then show ?case by simp
next
  case (Cons r rs)
  obtain i h where r: "r = (i, h)" by (cases r)
  show ?case
  proof (cases "resolve reg i")
    case (Some other)
    then have "i \<in> Id' ` set reg" using resolve_None_iff [of reg i] by auto
    then have "i \<in> set (map Id' reg)" by simp
    then have "count_list (map Id' reg) i \<noteq> 0"
      by (simp only: count_list_0_iff not_not)
    then have "1 \<le> count_list (map Id' reg) i"
      by simp
    then have "2 \<le> count_list (map Id' reg @ map fst (r # rs)) i"
      by (simp add: r)
    then show ?thesis by (auto simp: r register_handler_def Some)
  next
    case None
    then have fresh: "i \<notin> Id' ` set reg" by (simp add: resolve_None_iff)
    let ?reg = "reg @ [\<lparr>Id' = i, Handler = h\<rparr>]"
    have "\<not> distinct (map Id' ?reg @ map fst rs)"
      using Cons.prems(1) by (auto simp: r)
    moreover have "distinct (map Id' ?reg)"
      using Cons.prems(2) fresh by auto
    ultimately obtain j where j: "populate ?reg rs = Inl (DuplicateIdentity j)"
      "2 \<le> count_list (map Id' ?reg @ map fst rs) j"
      using Cons.IH by blast
    from j(2) have "2 \<le> count_list (map Id' reg @ map fst (r # rs)) j"
      by (simp add: r)
    with j(1) show ?thesis by (auto simp: r register_handler_def None)
  qed
qed

lemma initialize_distinct:
  "distinct (map fst rs) \<Longrightarrow>
   initialize peer rs =
     Inr \<lparr>m_serverRpcs = [], m_clientRpcs = map (\<lambda>(i, h). \<lparr>Id' = i, Handler = h\<rparr>) rs,
          phase = AwaitingDefinitions, server_peer = peer, effects = []\<rparr>"
  using populate_distinct [of "[]" rs] by (simp add: initialize_def)

lemma initialize_duplicate:
  "\<not> distinct (map fst rs) \<Longrightarrow>
   \<exists>i. initialize peer rs = Inl (DuplicateIdentity i) \<and> 2 \<le> count_list (map fst rs) i"
  using populate_duplicate [of "[]" rs] by (auto simp: initialize_def)

text \<open>
  Claim C5. If two of the registrations of the bring-up have equal Identities, the
  initialization fails with the duplicate-identity error, for an Identity that is
  registered at least twice; it yields a service exactly when the registered Identities
  are pairwise different, so it never keeps one of two handlers of an Identity.
\<close>

theorem duplicate_registration_fails:
  "(p < q \<and> q < length registrations \<and>
      RpcId_eq (fst (registrations ! p)) (fst (registrations ! q)) \<longrightarrow>
      (\<exists>i. initialize peer registrations = Inl (DuplicateIdentity i) \<and>
           2 \<le> count_list (map fst registrations) i)) \<and>
   ((\<exists>s. initialize peer registrations = Inr s) \<longleftrightarrow> distinct (map fst registrations))"
proof (intro conjI impI)
  assume dup: "p < q \<and> q < length registrations \<and>
      RpcId_eq (fst (registrations ! p)) (fst (registrations ! q))"
  then have "map fst registrations ! p = map fst registrations ! q"
    by (simp add: RpcId_eq_iff)
  moreover from dup have "p < length (map fst registrations)" "q < length (map fst registrations)" "p \<noteq> q"
    by simp_all
  ultimately have "\<not> distinct (map fst registrations)"
    using nth_eq_iff_index_eq [of "map fst registrations" p q] by blast
  then show "\<exists>i. initialize peer registrations = Inl (DuplicateIdentity i) \<and>
           2 \<le> count_list (map fst registrations) i"
    by (rule initialize_duplicate)
next
  show "(\<exists>s. initialize peer registrations = Inr s) \<longleftrightarrow> distinct (map fst registrations)"
  proof (cases "distinct (map fst registrations)")
    case True
    then show ?thesis by (simp add: initialize_distinct)
  next
    case False
    then obtain i where "initialize peer registrations = Inl (DuplicateIdentity i)"
      using initialize_duplicate by blast
    with False show ?thesis by simp
  qed
qed

theorem duplicate_registration_fails_witness:
  "(0::nat) < 2 \<and>
   2 < length [(\<lparr>Klass = 1, Function = 2\<rparr>, ''H1''), (\<lparr>Klass = 3, Function = 4\<rparr>, ''H2''),
               (\<lparr>Klass = 1, Function = 2\<rparr>, ''H3'')] \<and>
   RpcId_eq
     (fst ([(\<lparr>Klass = 1, Function = 2\<rparr>, ''H1''), (\<lparr>Klass = 3, Function = 4\<rparr>, ''H2''),
            (\<lparr>Klass = 1, Function = 2\<rparr>, ''H3'')] ! 0))
     (fst ([(\<lparr>Klass = 1, Function = 2\<rparr>, ''H1''), (\<lparr>Klass = 3, Function = 4\<rparr>, ''H2''),
            (\<lparr>Klass = 1, Function = 2\<rparr>, ''H3'')] ! 2)) \<and>
   initialize 0 [(\<lparr>Klass = 1, Function = 2\<rparr>, ''H1''), (\<lparr>Klass = 3, Function = 4\<rparr>, ''H2''),
                 (\<lparr>Klass = 1, Function = 2\<rparr>, ''H3'')] =
     Inl (DuplicateIdentity \<lparr>Klass = 1, Function = 2\<rparr>)"
  using duplicate_registration_fails [where p = 0 and q = 2 and peer = 0 and
      registrations = "[(\<lparr>Klass = 1, Function = 2\<rparr>, ''H1''), (\<lparr>Klass = 3, Function = 4\<rparr>, ''H2''),
               (\<lparr>Klass = 1, Function = 2\<rparr>, ''H3'')]"]
  by (simp add: initialize_def register_handler_def RpcId_eq_def)

text \<open>
  Claim C6. \<open>resolve\<close> returns the same result for equal Identities, and for a registry
  populated with distinct Identities the handler of an Identity does not depend on the
  order of the registrations: two successful bring-ups from registrations that are
  permutations of each other resolve every Identity alike, to the handler it was
  registered with.
\<close>

theorem resolve_order_independent:
  "(RpcId_eq i j \<longrightarrow> resolve reg i = resolve reg j) \<and>
   (initialize peer registrations = Inr s \<and> initialize peer registrations' = Inr s' \<and>
    mset registrations' = mset registrations \<longrightarrow>
      resolve (m_clientRpcs s') i = resolve (m_clientRpcs s) i \<and>
      (\<forall>h. (i, h) \<in> set registrations \<longrightarrow> resolve (m_clientRpcs s) i = Some h))"
proof (intro conjI impI allI)
  assume "RpcId_eq i j"
  then show "resolve reg i = resolve reg j" by (rule resolve_eq)
next
  assume a: "initialize peer registrations = Inr s \<and> initialize peer registrations' = Inr s' \<and>
    mset registrations' = mset registrations"
  then have a1: "initialize peer registrations = Inr s"
    and a2: "initialize peer registrations' = Inr s'"
    and a3: "mset registrations' = mset registrations"
    by blast+
  have d: "distinct (map fst registrations)"
  proof (rule ccontr)
    assume "\<not> distinct (map fst registrations)"
    then obtain k where "initialize peer registrations = Inl (DuplicateIdentity k)"
      using initialize_duplicate by blast
    with a1 show False by simp
  qed
  have d': "distinct (map fst registrations')"
  proof (rule ccontr)
    assume "\<not> distinct (map fst registrations')"
    then obtain k where "initialize peer registrations' = Inl (DuplicateIdentity k)"
      using initialize_duplicate by blast
    with a2 show False by simp
  qed
  from a3 have "set registrations' = set registrations"
    by (rule mset_eq_setD)
  with d d' have eq: "map_of registrations' = map_of registrations"
    using map_of_inject_set [of registrations' registrations] by blast
  from a1 [symmetric] have "s = \<lparr>m_serverRpcs = [],
      m_clientRpcs = map (\<lambda>(i, h). \<lparr>Id' = i, Handler = h\<rparr>) registrations,
      phase = AwaitingDefinitions, server_peer = peer, effects = []\<rparr>"
    by (simp add: initialize_distinct [OF d])
  then have s: "m_clientRpcs s = map (\<lambda>(i, h). \<lparr>Id' = i, Handler = h\<rparr>) registrations"
    by simp
  from a2 [symmetric] have "s' = \<lparr>m_serverRpcs = [],
      m_clientRpcs = map (\<lambda>(i, h). \<lparr>Id' = i, Handler = h\<rparr>) registrations',
      phase = AwaitingDefinitions, server_peer = peer, effects = []\<rparr>"
    by (simp add: initialize_distinct [OF d'])
  then have s': "m_clientRpcs s' = map (\<lambda>(i, h). \<lparr>Id' = i, Handler = h\<rparr>) registrations'"
    by simp
  show "resolve (m_clientRpcs s') i = resolve (m_clientRpcs s) i"
    by (simp only: s s' resolve_map_of eq)
  show "resolve (m_clientRpcs s) i = Some h" if "(i, h) \<in> set registrations" for h
    using that d by (simp add: s resolve_map_of)
qed

theorem resolve_order_independent_witness:
  "RpcId_eq \<lparr>Klass = 3, Function = 4\<rparr> \<lparr>Klass = 3, Function = 4\<rparr> \<and>
   initialize 0 [(\<lparr>Klass = 1, Function = 2\<rparr>, ''H1''), (\<lparr>Klass = 3, Function = 4\<rparr>, ''H2'')] =
     Inr \<lparr>m_serverRpcs = [],
          m_clientRpcs = [\<lparr>Id' = \<lparr>Klass = 1, Function = 2\<rparr>, Handler = ''H1''\<rparr>,
                          \<lparr>Id' = \<lparr>Klass = 3, Function = 4\<rparr>, Handler = ''H2''\<rparr>],
          phase = AwaitingDefinitions, server_peer = 0, effects = []\<rparr> \<and>
   initialize 0 [(\<lparr>Klass = 3, Function = 4\<rparr>, ''H2''), (\<lparr>Klass = 1, Function = 2\<rparr>, ''H1'')] =
     Inr \<lparr>m_serverRpcs = [],
          m_clientRpcs = [\<lparr>Id' = \<lparr>Klass = 3, Function = 4\<rparr>, Handler = ''H2''\<rparr>,
                          \<lparr>Id' = \<lparr>Klass = 1, Function = 2\<rparr>, Handler = ''H1''\<rparr>],
          phase = AwaitingDefinitions, server_peer = 0, effects = []\<rparr> \<and>
   mset [(\<lparr>Klass = 3, Function = 4\<rparr>, ''H2''), (\<lparr>Klass = 1, Function = 2\<rparr>, ''H1'')] =
   mset [(\<lparr>Klass = 1, Function = 2\<rparr>, ''H1''), (\<lparr>Klass = 3, Function = 4\<rparr>, ''H2'')] \<and>
   resolve [\<lparr>Id' = \<lparr>Klass = 3, Function = 4\<rparr>, Handler = ''H2''\<rparr>,
            \<lparr>Id' = \<lparr>Klass = 1, Function = 2\<rparr>, Handler = ''H1''\<rparr>] \<lparr>Klass = 3, Function = 4\<rparr> =
   resolve [\<lparr>Id' = \<lparr>Klass = 1, Function = 2\<rparr>, Handler = ''H1''\<rparr>,
            \<lparr>Id' = \<lparr>Klass = 3, Function = 4\<rparr>, Handler = ''H2''\<rparr>] \<lparr>Klass = 3, Function = 4\<rparr> \<and>
   resolve [\<lparr>Id' = \<lparr>Klass = 1, Function = 2\<rparr>, Handler = ''H1''\<rparr>,
            \<lparr>Id' = \<lparr>Klass = 3, Function = 4\<rparr>, Handler = ''H2''\<rparr>] \<lparr>Klass = 3, Function = 4\<rparr> =
     Some ''H2''"
proof -
  let ?r = "[(\<lparr>Klass = 1, Function = 2\<rparr>, ''H1''), (\<lparr>Klass = 3, Function = 4\<rparr>, ''H2'')]"
  let ?r' = "[(\<lparr>Klass = 3, Function = 4\<rparr>, ''H2''), (\<lparr>Klass = 1, Function = 2\<rparr>, ''H1'')]"
  let ?c = "[\<lparr>Id' = \<lparr>Klass = 1, Function = 2\<rparr>, Handler = ''H1''\<rparr>,
             \<lparr>Id' = \<lparr>Klass = 3, Function = 4\<rparr>, Handler = ''H2''\<rparr>]"
  let ?c' = "[\<lparr>Id' = \<lparr>Klass = 3, Function = 4\<rparr>, Handler = ''H2''\<rparr>,
              \<lparr>Id' = \<lparr>Klass = 1, Function = 2\<rparr>, Handler = ''H1''\<rparr>]"
  let ?s = "\<lparr>m_serverRpcs = [], m_clientRpcs = ?c,
          phase = AwaitingDefinitions, server_peer = 0, effects = []\<rparr>"
  let ?s' = "\<lparr>m_serverRpcs = [], m_clientRpcs = ?c',
          phase = AwaitingDefinitions, server_peer = 0, effects = []\<rparr>"
  have i: "initialize 0 ?r = Inr ?s"
    by (simp add: initialize_def register_handler_def RpcId_eq_def)
  have i': "initialize 0 ?r' = Inr ?s'"
    by (simp add: initialize_def register_handler_def RpcId_eq_def)
  have m: "mset ?r' = mset ?r"
    by (simp add: add_mset_commute)
  have e: "RpcId_eq \<lparr>Klass = 3, Function = 4\<rparr> \<lparr>Klass = 3, Function = 4\<rparr>"
    by (simp add: RpcId_eq_def)
  have n: "(\<lparr>Klass = 3, Function = 4\<rparr>, ''H2'') \<in> set ?r"
    by simp
  note T = resolve_order_independent [where i = "\<lparr>Klass = 3, Function = 4\<rparr>" and peer = 0
      and registrations = ?r and registrations' = ?r' and s = ?s and s' = ?s',
      THEN conjunct2, THEN mp, OF conjI [OF i conjI [OF i' m]]]
  have t1: "resolve (m_clientRpcs ?s') \<lparr>Klass = 3, Function = 4\<rparr> =
        resolve (m_clientRpcs ?s) \<lparr>Klass = 3, Function = 4\<rparr>"
    by (rule T [THEN conjunct1])
  have t2: "resolve (m_clientRpcs ?s) \<lparr>Klass = 3, Function = 4\<rparr> = Some ''H2''"
    by (rule T [THEN conjunct2, THEN spec, THEN mp, OF n])
  from t1 have u1: "resolve ?c' \<lparr>Klass = 3, Function = 4\<rparr> = resolve ?c \<lparr>Klass = 3, Function = 4\<rparr>"
    by (simp only: RpcService.select_convs)
  from t2 have u2: "resolve ?c \<lparr>Klass = 3, Function = 4\<rparr> = Some ''H2''"
    by (simp only: RpcService.select_convs)
  show ?thesis
    by (intro conjI e i i' m u1 u2)
qed

section \<open>Dispatcher\<close>

lemma identity_of_None_iff: "identity_of t w = None \<longleftrightarrow> w \<notin> snd ` set t"
  by (induction t) (auto split: if_splits)

lemma resolve_call_ByIdentity_None:
  "resolve_call s (ByIdentity i) = None \<longleftrightarrow> i \<notin> Id' ` set (m_clientRpcs s)"
  by (simp add: resolve_None_iff)

lemma resolve_call_ByWireId_None:
  "w \<notin> snd ` set (m_serverRpcs s) \<Longrightarrow> resolve_call s (ByWireId w) = None"
  by (simp add: identity_of_None_iff [THEN iffD2])

lemma step_awaiting:
  "(phase s \<noteq> Ready \<longrightarrow> m_serverRpcs s = []) \<Longrightarrow>
   (phase (step s r) \<noteq> Ready \<longrightarrow> m_serverRpcs (step s r) = [])"
  by (cases r)
    (simp_all add: HandleRpcDefinitions_def HandleRpc_def issue_call_def split: option.splits)

lemma run_awaiting:
  "(phase s \<noteq> Ready \<longrightarrow> m_serverRpcs s = []) \<Longrightarrow>
   (phase (run s rs) \<noteq> Ready \<longrightarrow> m_serverRpcs (run s rs) = [])"
proof (induction rs arbitrary: s)
  case Nil
  then show ?case by simp
next
  case (Cons r rs)
  have "phase (run (step s r) rs) \<noteq> Ready \<longrightarrow> m_serverRpcs (run (step s r) rs) = []"
    by (rule Cons.IH) (rule step_awaiting [OF Cons.prems])
  then show ?case by simp
qed

lemma initialize_awaiting:
  "initialize peer rs = Inr s \<Longrightarrow> m_serverRpcs s = [] \<and> phase s = AwaitingDefinitions"
  by (auto simp: initialize_def split: sum.splits)

lemma GetRpcId_None_iff:
  "GetRpcId s k f = None \<longleftrightarrow> \<lparr>Klass = k, Function = f\<rparr> \<notin> fst ` set (m_serverRpcs s)"
  by (simp add: GetRpcId_def lookup_map_of map_of_eq_None_iff)

lemma issue_call_unresolved:
  "GetRpcId s (Klass i) (Function i) = None \<Longrightarrow> issue_call s i args = (False, s)"
  by (simp add: issue_call_def)


text \<open>
  Claim C2. An inbound Call message whose identifier does not resolve is dropped: the
  only thing the dispatcher does is to log the drop; no argument payload is decoded, no
  handler is invoked, and the tables and the phase of the connection stay as they were.
  An Identity resolves exactly when the registry has it, and a WireId that the
  translation table does not have does not resolve. A message that resolves is decoded
  and its handler invoked.
\<close>

theorem HandleRpc_unresolved_dropped:
  "(resolve_call s (ident (Base aMessage)) = None \<longrightarrow>
      HandleRpc s aMessage = s\<lparr>effects := effects s @ [LoggedDrop (ident (Base aMessage))]\<rparr> \<and>
      effects (HandleRpc s aMessage) = effects s @ [LoggedDrop (ident (Base aMessage))] \<and>
      phase (HandleRpc s aMessage) = phase s \<and>
      m_serverRpcs (HandleRpc s aMessage) = m_serverRpcs s \<and>
      m_clientRpcs (HandleRpc s aMessage) = m_clientRpcs s) \<and>
   (resolve_call s (ByIdentity i) = None \<longleftrightarrow> i \<notin> Id' ` set (m_clientRpcs s)) \<and>
   (w \<notin> snd ` set (m_serverRpcs s) \<longrightarrow> resolve_call s (ByWireId w) = None) \<and>
   (resolve_call s (ident (Base aMessage)) = Some h \<longrightarrow>
      effects (HandleRpc s aMessage) =
        effects s @ [Decoded h (arguments (Base aMessage)), Invoked h])"
proof (intro conjI impI)
  assume "resolve_call s (ident (Base aMessage)) = None"
  then show drop: "HandleRpc s aMessage = s\<lparr>effects := effects s @ [LoggedDrop (ident (Base aMessage))]\<rparr>"
    by (simp add: HandleRpc_def)
  show "effects (HandleRpc s aMessage) = effects s @ [LoggedDrop (ident (Base aMessage))]"
    by (simp add: drop)
  show "phase (HandleRpc s aMessage) = phase s"
    by (simp add: drop)
  show "m_serverRpcs (HandleRpc s aMessage) = m_serverRpcs s"
    by (simp add: drop)
  show "m_clientRpcs (HandleRpc s aMessage) = m_clientRpcs s"
    by (simp add: drop)
next
  show "resolve_call s (ByIdentity i) = None \<longleftrightarrow> i \<notin> Id' ` set (m_clientRpcs s)"
    by (rule resolve_call_ByIdentity_None)
next
  assume "w \<notin> snd ` set (m_serverRpcs s)"
  then show "resolve_call s (ByWireId w) = None"
    by (rule resolve_call_ByWireId_None)
next
  assume "resolve_call s (ident (Base aMessage)) = Some h"
  then show "effects (HandleRpc s aMessage) =
        effects s @ [Decoded h (arguments (Base aMessage)), Invoked h]"
    by (simp add: HandleRpc_def)
qed

theorem HandleRpc_unresolved_dropped_witness:
  "resolve_call
     \<lparr>m_serverRpcs = [(\<lparr>Klass = 1, Function = 2\<rparr>, 7)],
      m_clientRpcs = [\<lparr>Id' = \<lparr>Klass = 1, Function = 2\<rparr>, Handler = ''H1''\<rparr>,
                      \<lparr>Id' = \<lparr>Klass = 3, Function = 4\<rparr>, Handler = ''H2''\<rparr>],
      phase = Ready, server_peer = 0, effects = []\<rparr>
     (ident (Base \<lparr>Base = \<lparr>ident = ByIdentity \<lparr>Klass = 9, Function = 9\<rparr>, arguments = [1, 2, 3]\<rparr>,
                   ConnectionId = 0\<rparr>)) = None \<and>
   HandleRpc
     \<lparr>m_serverRpcs = [(\<lparr>Klass = 1, Function = 2\<rparr>, 7)],
      m_clientRpcs = [\<lparr>Id' = \<lparr>Klass = 1, Function = 2\<rparr>, Handler = ''H1''\<rparr>,
                      \<lparr>Id' = \<lparr>Klass = 3, Function = 4\<rparr>, Handler = ''H2''\<rparr>],
      phase = Ready, server_peer = 0, effects = []\<rparr>
     \<lparr>Base = \<lparr>ident = ByIdentity \<lparr>Klass = 9, Function = 9\<rparr>, arguments = [1, 2, 3]\<rparr>,
      ConnectionId = 0\<rparr> =
     \<lparr>m_serverRpcs = [(\<lparr>Klass = 1, Function = 2\<rparr>, 7)],
      m_clientRpcs = [\<lparr>Id' = \<lparr>Klass = 1, Function = 2\<rparr>, Handler = ''H1''\<rparr>,
                      \<lparr>Id' = \<lparr>Klass = 3, Function = 4\<rparr>, Handler = ''H2''\<rparr>],
      phase = Ready, server_peer = 0,
      effects = [LoggedDrop (ByIdentity \<lparr>Klass = 9, Function = 9\<rparr>)]\<rparr> \<and>
   (9 :: u32) \<notin> snd ` set [(\<lparr>Klass = 1, Function = 2\<rparr>, 7)] \<and>
   resolve_call
     \<lparr>m_serverRpcs = [(\<lparr>Klass = 1, Function = 2\<rparr>, 7)],
      m_clientRpcs = [\<lparr>Id' = \<lparr>Klass = 1, Function = 2\<rparr>, Handler = ''H1''\<rparr>,
                      \<lparr>Id' = \<lparr>Klass = 3, Function = 4\<rparr>, Handler = ''H2''\<rparr>],
      phase = Ready, server_peer = 0, effects = []\<rparr> (ByWireId 9) = None \<and>
   resolve_call
     \<lparr>m_serverRpcs = [(\<lparr>Klass = 1, Function = 2\<rparr>, 7)],
      m_clientRpcs = [\<lparr>Id' = \<lparr>Klass = 1, Function = 2\<rparr>, Handler = ''H1''\<rparr>,
                      \<lparr>Id' = \<lparr>Klass = 3, Function = 4\<rparr>, Handler = ''H2''\<rparr>],
      phase = Ready, server_peer = 0, effects = []\<rparr>
     (ident (Base \<lparr>Base = \<lparr>ident = ByIdentity \<lparr>Klass = 3, Function = 4\<rparr>, arguments = [1, 2, 3]\<rparr>,
                   ConnectionId = 0\<rparr>)) = Some ''H2'' \<and>
   effects (HandleRpc
     \<lparr>m_serverRpcs = [(\<lparr>Klass = 1, Function = 2\<rparr>, 7)],
      m_clientRpcs = [\<lparr>Id' = \<lparr>Klass = 1, Function = 2\<rparr>, Handler = ''H1''\<rparr>,
                      \<lparr>Id' = \<lparr>Klass = 3, Function = 4\<rparr>, Handler = ''H2''\<rparr>],
      phase = Ready, server_peer = 0, effects = []\<rparr>
     \<lparr>Base = \<lparr>ident = ByIdentity \<lparr>Klass = 3, Function = 4\<rparr>, arguments = [1, 2, 3]\<rparr>,
      ConnectionId = 0\<rparr>) = [Decoded ''H2'' [1, 2, 3], Invoked ''H2'']"
  using HandleRpc_unresolved_dropped [where w = 9 and h = "''H2''" and
      i = "\<lparr>Klass = 9, Function = 9\<rparr>" and
      s = "\<lparr>m_serverRpcs = [(\<lparr>Klass = 1, Function = 2\<rparr>, 7)],
      m_clientRpcs = [\<lparr>Id' = \<lparr>Klass = 1, Function = 2\<rparr>, Handler = ''H1''\<rparr>,
                      \<lparr>Id' = \<lparr>Klass = 3, Function = 4\<rparr>, Handler = ''H2''\<rparr>],
      phase = Ready, server_peer = 0, effects = []\<rparr>" and
      aMessage = "\<lparr>Base = \<lparr>ident = ByIdentity \<lparr>Klass = 9, Function = 9\<rparr>, arguments = [1, 2, 3]\<rparr>,
      ConnectionId = 0\<rparr>"]
    HandleRpc_unresolved_dropped [where h = "''H2''" and w = 9 and
      i = "\<lparr>Klass = 9, Function = 9\<rparr>" and
      s = "\<lparr>m_serverRpcs = [(\<lparr>Klass = 1, Function = 2\<rparr>, 7)],
      m_clientRpcs = [\<lparr>Id' = \<lparr>Klass = 1, Function = 2\<rparr>, Handler = ''H1''\<rparr>,
                      \<lparr>Id' = \<lparr>Klass = 3, Function = 4\<rparr>, Handler = ''H2''\<rparr>],
      phase = Ready, server_peer = 0, effects = []\<rparr>" and
      aMessage = "\<lparr>Base = \<lparr>ident = ByIdentity \<lparr>Klass = 3, Function = 4\<rparr>, arguments = [1, 2, 3]\<rparr>,
      ConnectionId = 0\<rparr>"]
  by (simp add: RpcId_eq_def)


text \<open>
  Claim C7. \<open>GetRpcId\<close> returns an optional value, absent exactly for the Identities
  with no current entry; an outbound call whose lookup is unresolved is rejected with
  the state unchanged, whatever the phase; and in every state reached from the bring-up
  that is not yet \<open>Ready\<close>, every lookup is absent and every outbound call is rejected
  in that same way.
\<close>

theorem GetRpcId_absent_uniform:
  "(GetRpcId s k f = None \<longleftrightarrow> \<lparr>Klass = k, Function = f\<rparr> \<notin> fst ` set (m_serverRpcs s)) \<and>
   (GetRpcId s (Klass i) (Function i) = None \<longrightarrow> issue_call s i args = (False, s)) \<and>
   (initialize peer registrations = Inr s0 \<and> phase (run s0 requests) \<noteq> Ready \<longrightarrow>
      GetRpcId (run s0 requests) k f = None \<and>
      issue_call (run s0 requests) i args = (False, run s0 requests))"
proof (intro conjI impI)
  show "GetRpcId s k f = None \<longleftrightarrow> \<lparr>Klass = k, Function = f\<rparr> \<notin> fst ` set (m_serverRpcs s)"
    by (rule GetRpcId_None_iff)
next
  assume "GetRpcId s (Klass i) (Function i) = None"
  then show "issue_call s i args = (False, s)"
    by (rule issue_call_unresolved)
next
  assume a: "initialize peer registrations = Inr s0 \<and> phase (run s0 requests) \<noteq> Ready"
  then have "phase s0 \<noteq> Ready \<longrightarrow> m_serverRpcs s0 = []"
    using initialize_awaiting [of peer registrations s0] by simp
  then have "phase (run s0 requests) \<noteq> Ready \<longrightarrow> m_serverRpcs (run s0 requests) = []"
    by (rule run_awaiting)
  with a have empty: "m_serverRpcs (run s0 requests) = []"
    by simp
  then show none: "GetRpcId (run s0 requests) k f = None"
    by (simp add: GetRpcId_def)
  from empty show "issue_call (run s0 requests) i args = (False, run s0 requests)"
    by (simp add: issue_call_def GetRpcId_def)
qed

theorem GetRpcId_absent_uniform_witness:
  "initialize 0 [(\<lparr>Klass = 1, Function = 2\<rparr>, ''H1'')] =
     Inr \<lparr>m_serverRpcs = [], m_clientRpcs = [\<lparr>Id' = \<lparr>Klass = 1, Function = 2\<rparr>, Handler = ''H1''\<rparr>],
          phase = AwaitingDefinitions, server_peer = 0, effects = []\<rparr> \<and>
   phase (run \<lparr>m_serverRpcs = [], m_clientRpcs = [\<lparr>Id' = \<lparr>Klass = 1, Function = 2\<rparr>, Handler = ''H1''\<rparr>],
               phase = AwaitingDefinitions, server_peer = 0, effects = []\<rparr>
            [OutCall \<lparr>Klass = 1, Function = 2\<rparr> [],
             InDefinitions \<lparr>Base = \<lparr>definitions = [(\<lparr>Klass = 1, Function = 2\<rparr>, 7)]\<rparr>,
                            ConnectionId = 5\<rparr>]) \<noteq> Ready \<and>
   GetRpcId (run \<lparr>m_serverRpcs = [], m_clientRpcs = [\<lparr>Id' = \<lparr>Klass = 1, Function = 2\<rparr>, Handler = ''H1''\<rparr>],
               phase = AwaitingDefinitions, server_peer = 0, effects = []\<rparr>
            [OutCall \<lparr>Klass = 1, Function = 2\<rparr> [],
             InDefinitions \<lparr>Base = \<lparr>definitions = [(\<lparr>Klass = 1, Function = 2\<rparr>, 7)]\<rparr>,
                            ConnectionId = 5\<rparr>]) 1 2 = None \<and>
   GetRpcId \<lparr>m_serverRpcs = [(\<lparr>Klass = 1, Function = 2\<rparr>, 7)],
             m_clientRpcs = [\<lparr>Id' = \<lparr>Klass = 1, Function = 2\<rparr>, Handler = ''H1''\<rparr>],
             phase = Ready, server_peer = 0, effects = []\<rparr>
     (Klass \<lparr>Klass = 5, Function = 6\<rparr>) (Function \<lparr>Klass = 5, Function = 6\<rparr>) = None \<and>
   issue_call \<lparr>m_serverRpcs = [(\<lparr>Klass = 1, Function = 2\<rparr>, 7)],
             m_clientRpcs = [\<lparr>Id' = \<lparr>Klass = 1, Function = 2\<rparr>, Handler = ''H1''\<rparr>],
             phase = Ready, server_peer = 0, effects = []\<rparr> \<lparr>Klass = 5, Function = 6\<rparr> [1] =
     (False, \<lparr>m_serverRpcs = [(\<lparr>Klass = 1, Function = 2\<rparr>, 7)],
             m_clientRpcs = [\<lparr>Id' = \<lparr>Klass = 1, Function = 2\<rparr>, Handler = ''H1''\<rparr>],
             phase = Ready, server_peer = 0, effects = []\<rparr>)"
  using GetRpcId_absent_uniform [where peer = 0 and k = 1 and f = 2
      and registrations = "[(\<lparr>Klass = 1, Function = 2\<rparr>, ''H1'')]"
      and ?s0.0 = "\<lparr>m_serverRpcs = [], m_clientRpcs = [\<lparr>Id' = \<lparr>Klass = 1, Function = 2\<rparr>, Handler = ''H1''\<rparr>],
          phase = AwaitingDefinitions, server_peer = 0, effects = []\<rparr>"
      and requests = "[OutCall \<lparr>Klass = 1, Function = 2\<rparr> [],
             InDefinitions \<lparr>Base = \<lparr>definitions = [(\<lparr>Klass = 1, Function = 2\<rparr>, 7)]\<rparr>,
                            ConnectionId = 5\<rparr>]"
      and s = "\<lparr>m_serverRpcs = [(\<lparr>Klass = 1, Function = 2\<rparr>, 7)],
             m_clientRpcs = [\<lparr>Id' = \<lparr>Klass = 1, Function = 2\<rparr>, Handler = ''H1''\<rparr>],
             phase = Ready, server_peer = 0, effects = []\<rparr>"
      and i = "\<lparr>Klass = 5, Function = 6\<rparr>" and args = "[1]"]
  by (simp add: initialize_def register_handler_def RpcId_eq_def GetRpcId_def issue_call_def
      HandleRpcDefinitions_def)


section \<open>Announcements of the server list system\<close>

lemma sint_plus_minute:
  assumes "sint now2 + 60000000000 < 2 ^ 63"
  shows "sint (now2 + minutes 1 :: 64 word) = sint now2 + 60000000000"
proof -
  have m: "sint (minutes 1) = 60000000000" by (simp add: minutes_def)
  have lo: "- (2 ^ 63) \<le> sint now2" using sint_ge [of now2] by simp
  have "sint (now2 + minutes 1) = signed_take_bit 63 (sint now2 + sint (minutes 1))"
    by (simp add: sint_word_ariths)
  also have "\<dots> = sint now2 + 60000000000"
    using assms lo by (simp add: m signed_take_bit_int_eq_self)
  finally show ?thesis .
qed

lemma world_step_spaced:
  assumes "steady e" and "in_range e" and "spaced (announce_log s)"
    and "\<forall>t l. announce_log s = Announced t # l \<longrightarrow>
           sint t + 60000000000 \<le> sint (m_nextAnnounce s)"
  shows "spaced (announce_log (world_step s e)) \<and>
    (\<forall>t l. announce_log (world_step s e) = Announced t # l \<longrightarrow>
       sint t + 60000000000 \<le> sint (m_nextAnnounce (world_step s e)))"
proof (cases e)
  case (TickEvent now1 now2)
  with assms(1) have le: "sint now1 \<le> sint now2" by (simp add: word_sle_eq)
  from assms(2) have "sint now2 + 60000000000 < 2 ^ 63" by (simp add: TickEvent)
  then have sched: "sint (now2 + minutes 1) = sint now2 + 60000000000"
    by (rule sint_plus_minute)
  show ?thesis
  proof (cases "m_nextAnnounce s <s now1")
    case False
    with assms(3,4) show ?thesis by (simp add: TickEvent Tick_def)
  next
    case True
    then have passed: "sint (m_nextAnnounce s) < sint now1" by (simp add: word_sless_alt)
    have "spaced (Announced now1 # announce_log s)"
    proof (cases "announce_log s")
      case Nil
      then show ?thesis by simp
    next
      case (Cons x l)
      show ?thesis
      proof (cases x)
        case (Announced t)
        with Cons assms(4) have "sint t + 60000000000 \<le> sint (m_nextAnnounce s)" by simp
        with passed have "sint t + 60000000000 < sint now1" by simp
        with assms(3) show ?thesis by (simp add: Cons Announced)
      next
        case Reset
        with assms(3) show ?thesis by (simp add: Cons)
      qed
    qed
    with True le sched show ?thesis by (simp add: TickEvent Tick_def)
  qed
next
  case OnSet
  with assms(3) show ?thesis by (simp add: on_player_component_def)
next
  case OnRemove
  with assms(3) show ?thesis by (simp add: on_player_component_def)
qed

lemma world_run_spaced:
  "\<forall>e \<in> set es. steady e \<and> in_range e \<Longrightarrow> spaced (announce_log s) \<Longrightarrow>
   \<forall>t l. announce_log s = Announced t # l \<longrightarrow>
     sint t + 60000000000 \<le> sint (m_nextAnnounce s) \<Longrightarrow>
   spaced (announce_log (world_run s es))"
proof (induction es arbitrary: s)
  case Nil
  then show ?case by simp
next
  case (Cons e es)
  from Cons.prems have "steady e" and "in_range e" by simp_all
  from world_step_spaced [OF this Cons.prems(2,3)]
  have "spaced (announce_log (world_step s e))"
    and "\<forall>t l. announce_log (world_step s e) = Announced t # l \<longrightarrow>
       sint t + 60000000000 \<le> sint (m_nextAnnounce (world_step s e))"
    by blast+
  moreover from Cons.prems have "\<forall>e \<in> set es. steady e \<and> in_range e" by simp
  ultimately have "spaced (announce_log (world_run (world_step s e) es))"
    using Cons.IH by blast
  then show ?case by simp
qed

text \<open>
  Claim C10, as amended. \<open>Tick\<close> announces exactly when its clock reading has passed
  \<open>m_nextAnnounce\<close>, and then schedules the next announcement one minute after its
  second reading, in 64-bit arithmetic. In every run from the constructor in which the
  clock is steady and every reading is more than one minute before the end of the
  64-bit range, two announcements with no reset between them are more than one minute
  apart. The observer resets \<open>m_nextAnnounce\<close> to the epoch, and the next \<open>Tick\<close> then
  announces if its clock reading is after the epoch.
\<close>

theorem Tick_announces_spaced_in_range:
  "announce_log (Tick s now1 now2) =
     (if m_nextAnnounce s <s now1 then Announced now1 # announce_log s else announce_log s) \<and>
   (m_nextAnnounce s <s now1 \<longrightarrow> m_nextAnnounce (Tick s now1 now2) = now2 + minutes 1) \<and>
   (\<not> m_nextAnnounce s <s now1 \<longrightarrow> Tick s now1 now2 = s) \<and>
   ((\<forall>e \<in> set es. steady e \<and> in_range e) \<longrightarrow>
      spaced (announce_log (world_run ServerListSystem_new es))) \<and>
   m_nextAnnounce (on_player_component s) = 0 \<and>
   (0 <s now1 \<longrightarrow>
      announce_log (Tick (on_player_component s) now1 now2) =
        Announced now1 # Reset # announce_log s)"
proof (intro conjI impI)
  show "announce_log (Tick s now1 now2) =
     (if m_nextAnnounce s <s now1 then Announced now1 # announce_log s else announce_log s)"
    by (simp add: Tick_def)
  show "m_nextAnnounce (Tick s now1 now2) = now2 + minutes 1" if "m_nextAnnounce s <s now1"
    using that by (simp add: Tick_def)
  show "Tick s now1 now2 = s" if "\<not> m_nextAnnounce s <s now1"
    using that by (simp add: Tick_def)
  show "spaced (announce_log (world_run ServerListSystem_new es))"
    if "\<forall>e \<in> set es. steady e \<and> in_range e"
    using that by (rule world_run_spaced) (simp_all add: ServerListSystem_new_def)
  show "m_nextAnnounce (on_player_component s) = 0"
    by (simp add: on_player_component_def)
  show "announce_log (Tick (on_player_component s) now1 now2) =
        Announced now1 # Reset # announce_log s" if "0 <s now1"
    using that by (simp add: Tick_def on_player_component_def)
qed

theorem Tick_announces_spaced_in_range_witness:
  "steady (TickEvent 5 6) \<and> in_range (TickEvent 5 6) \<and>
   steady (TickEvent 1000000000 1000000001) \<and> in_range (TickEvent 1000000000 1000000001) \<and>
   steady (TickEvent 60000000007 60000000009) \<and> in_range (TickEvent 60000000007 60000000009) \<and>
   steady OnSet \<and> in_range OnSet \<and>
   steady (TickEvent 61000000000 61000000001) \<and> in_range (TickEvent 61000000000 61000000001) \<and>
   announce_log (world_run ServerListSystem_new
     [TickEvent 5 6, TickEvent 1000000000 1000000001, TickEvent 60000000007 60000000009,
      OnSet, TickEvent 61000000000 61000000001]) =
     [Announced 61000000000, Reset, Announced 60000000007, Announced 5] \<and>
   spaced (announce_log (world_run ServerListSystem_new
     [TickEvent 5 6, TickEvent 1000000000 1000000001, TickEvent 60000000007 60000000009,
      OnSet, TickEvent 61000000000 61000000001])) \<and>
   m_nextAnnounce \<lparr>m_nextAnnounce = 0, announce_log = []\<rparr> <s 5 \<and>
   m_nextAnnounce (Tick \<lparr>m_nextAnnounce = 0, announce_log = []\<rparr> 5 6) = 60000000006 \<and>
   \<not> m_nextAnnounce \<lparr>m_nextAnnounce = 60000000006, announce_log = [Announced 5]\<rparr> <s 1000000000 \<and>
   Tick \<lparr>m_nextAnnounce = 60000000006, announce_log = [Announced 5]\<rparr> 1000000000 1000000001 =
     \<lparr>m_nextAnnounce = 60000000006, announce_log = [Announced 5]\<rparr> \<and>
   (0 :: 64 word) <s 7 \<and>
   announce_log (Tick (on_player_component \<lparr>m_nextAnnounce = 60000000006, announce_log = [Announced 5]\<rparr>) 7 8) =
     [Announced 7, Reset, Announced 5]"
  using Tick_announces_spaced_in_range [where s = "\<lparr>m_nextAnnounce = 0, announce_log = []\<rparr>"
      and ?now1.0 = 5 and ?now2.0 = 6
      and es = "[TickEvent 5 6, TickEvent 1000000000 1000000001, TickEvent 60000000007 60000000009,
                OnSet, TickEvent 61000000000 61000000001]"]
    Tick_announces_spaced_in_range [where s = "\<lparr>m_nextAnnounce = 60000000006, announce_log = [Announced 5]\<rparr>"
      and ?now1.0 = 1000000000 and ?now2.0 = 1000000001 and es = "[]"]
    Tick_announces_spaced_in_range [where s = "\<lparr>m_nextAnnounce = 60000000006, announce_log = [Announced 5]\<rparr>"
      and ?now1.0 = 7 and ?now2.0 = 8 and es = "[]"]
  by (simp add: ServerListSystem_new_def Tick_def on_player_component_def minutes_def
      word_sless_alt word_sle_eq)

text \<open>
  Without the two conditions on the clock readings the statement fails. From the
  constructor, two ticks one nanosecond apart at the readings \<open>2^63 - 6\<close> and \<open>2^63 - 5\<close>
  both announce, with no reset between them: the first tick schedules the next
  announcement at a sum that has wrapped around to a negative time point. And after a
  reset, a tick whose clock reads the epoch itself does not announce.
\<close>

theorem Tick_announces_one_minute_apart_counterexample:
  "steady (TickEvent 9223372036854775802 9223372036854775802) \<and>
   steady (TickEvent 9223372036854775803 9223372036854775803) \<and>
   announce_log (world_run ServerListSystem_new
     [TickEvent 9223372036854775802 9223372036854775802,
      TickEvent 9223372036854775803 9223372036854775803]) =
     [Announced 9223372036854775803, Announced 9223372036854775802] \<and>
   sint (9223372036854775803 :: 64 word) - sint (9223372036854775802 :: 64 word) = 1 \<and>
   \<not> spaced (announce_log (world_run ServerListSystem_new
     [TickEvent 9223372036854775802 9223372036854775802,
      TickEvent 9223372036854775803 9223372036854775803])) \<and>
   m_nextAnnounce (on_player_component ServerListSystem_new) = 0 \<and>
   announce_log (Tick (on_player_component ServerListSystem_new) 0 0) = [Reset]"
  by (simp add: ServerListSystem_new_def Tick_def on_player_component_def minutes_def
      word_sless_alt word_sle_eq)

end
